theory Spec2Isabelle
  imports Complex_Main "HOL-Library.Log_Nat" "HOL-Library.Char_ord" "HOL-Library.List_Lexorder"
begin

section \<open>Problem 1: JavaScript numbers\<close>

text \<open>
  A JavaScript number is a double: a finite one, taken as the real number it denotes, or
  \<open>NaN\<close> or an infinity. The sign of a zero is left out.
\<close>

datatype number = Num real | NaN | PosInfinity | NegInfinity

text \<open>The nearest integer, the even one of the two when they are equally near.\<close>

definition round_half_even :: "real \<Rightarrow> int" where
  "round_half_even x =
     (let f = \<lfloor>x\<rfloor>; d = x - of_int f
      in if d < 1 / 2 then f else if 1 / 2 < d then f + 1 else if even f then f else f + 1)"

definition pow2 :: "int \<Rightarrow> real" where
  "pow2 k = (if 0 \<le> k then 2 ^ nat k else 1 / 2 ^ nat (- k))"

text \<open>The exponent \<open>e\<close> of a real other than 0: \<open>2 ^ e \<le> \<bar>x\<bar> < 2 ^ (e + 1)\<close>.\<close>

definition exponent :: "real \<Rightarrow> int" where
  "exponent x = (if 1 \<le> \<bar>x\<bar> then bitlen \<lfloor>\<bar>x\<bar>\<rfloor> - 1 else - bitlen (\<lceil>1 / \<bar>x\<bar>\<rceil> - 1))"









fun js_lt :: "number \<Rightarrow> number \<Rightarrow> bool" where
  "js_lt (Num a) (Num b) = (a < b)"
| "js_lt NaN b = False"
| "js_lt a NaN = False"
| "js_lt PosInfinity b = False"
| "js_lt a NegInfinity = False"
| "js_lt a b = True"



text \<open>\<open>Number.isInteger(n)\<close>: false for every value that is not finite.\<close>

fun Number_isInteger :: "number \<Rightarrow> bool" where
  "Number_isInteger (Num r) = (of_int \<lfloor>r\<rfloor> = r)"
| "Number_isInteger NaN = False"
| "Number_isInteger PosInfinity = False"
| "Number_isInteger NegInfinity = False"

text \<open>The number of an integer.\<close>

abbreviation Whole :: "int \<Rightarrow> number" where
  "Whole k \<equiv> Num (of_int k)"

section \<open>Problem 1: the sum-to-n functions\<close>



subsection \<open>The TypeScript functions, with input validation\<close>






subsection \<open>The JavaScript functions, without validation\<close>








section \<open>Problem 5: the users table, the model and the controller\<close>

text \<open>
  A row of the table \<open>users\<close>, as the \<open>SELECT\<close> statements return it. \<open>age\<close> may
  be \<open>NULL\<close>.
\<close>

record user =
  id :: int
  name :: string
  email :: string
  age :: "int option"
  createdAt :: string
  updatedAt :: string

text \<open>The statements sent to SQLite, one per call of \<open>db.run\<close>, \<open>db.get\<close> or \<open>db.all\<close>.\<close>

datatype statement =
  INSERT_INTO_users | SELECT_WHERE_id | SELECT_COUNT | SELECT_LIMIT_OFFSET
  | UPDATE_users | DELETE_FROM_users | SELECT_1_WHERE_email

text \<open>
  The database: whether \<open>database.getDatabase()\<close> gave a connection, the rows in
  insertion order, the largest id handed out so far (\<open>AUTOINCREMENT\<close>), and the
  statements executed so far, oldest first.
\<close>

record database =
  connected :: bool
  table :: "user list"
  last_id :: int
  executed :: "statement list"

datatype db_error = Database_not_connected | No_fields_to_update | SQLITE_CONSTRAINT_UNIQUE

definition execute :: "statement \<Rightarrow> database \<Rightarrow> database" where
  "execute q db = db\<lparr>executed := executed db @ [q]\<rparr>"

record create_user_request =
  req_name :: string
  req_email :: string
  req_age :: "int option"

record update_user_request =
  upd_name :: "string option"
  upd_email :: "string option"
  upd_age :: "int option"

record query_filters =
  page :: "int option"
  limit :: "int option"
  filter_name :: "string option"
  filter_email :: "string option"
  minAge :: "int option"
  maxAge :: "int option"

record pagination =
  pg_page :: int
  pg_limit :: int
  total :: int
  totalPages :: int
  hasNext :: bool
  hasPrev :: bool

record paginated_response =
  data :: "user list"
  pagination :: pagination

text \<open>\<open>x || d\<close> on an optional number: undefined and 0 give the default.\<close>

fun or_default :: "int option \<Rightarrow> int \<Rightarrow> int" where
  "or_default None d = d"
| "or_default (Some x) d = (if x = 0 then d else x)"

text \<open>
  \<open>UserModel.create\<close>. \<open>now\<close> is \<open>new Date().toISOString()\<close>; the row's timestamps
  are the column default \<open>CURRENT_TIMESTAMP\<close>. The age is stored as \<open>userData.age || null\<close>.
\<close>

definition create ::
  "string \<Rightarrow> string \<Rightarrow> create_user_request \<Rightarrow> database \<Rightarrow> (db_error + user) \<times> database"
where
  "create now current_timestamp userData db =
     (if \<not> connected db then (Inl Database_not_connected, db)
      else let db1 = execute INSERT_INTO_users db in
        if req_email userData \<in> set (map email (table db1)) then (Inl SQLITE_CONSTRAINT_UNIQUE, db1)
        else
          let lastID = last_id db1 + 1;
              stored = \<lparr>id = lastID, name = req_name userData, email = req_email userData,
                        age = (if req_age userData = Some 0 then None else req_age userData),
                        createdAt = current_timestamp, updatedAt = current_timestamp\<rparr>
          in (Inr \<lparr>id = lastID, name = req_name userData, email = req_email userData,
                    age = req_age userData, createdAt = now, updatedAt = now\<rparr>,
              db1\<lparr>table := table db1 @ [stored], last_id := lastID\<rparr>))"

text \<open>\<open>UserModel.findById\<close>: the row, or null.\<close>

definition findById :: "int \<Rightarrow> database \<Rightarrow> (db_error + user option) \<times> database" where
  "findById i db =
     (if \<not> connected db then (Inl Database_not_connected, db)
      else (Inr (find (\<lambda>u. id u = i) (table db)), execute SELECT_WHERE_id db))"

text \<open>
  The \<open>WHERE\<close> clause built by \<open>UserModel.findAll\<close>. A filter on the name or the email
  is added when the string is not empty; SQLite's \<open>LIKE\<close> is the parameter \<open>like\<close>
  (value, then pattern). A comparison with a \<open>NULL\<close> age is not true.
\<close>

definition where_clause :: "(string \<Rightarrow> string \<Rightarrow> bool) \<Rightarrow> query_filters \<Rightarrow> user \<Rightarrow> bool" where
  "where_clause like filters u =
     ((case filter_name filters of
         None \<Rightarrow> True
       | Some n \<Rightarrow> n = [] \<or> like (name u) (''%'' @ n @ ''%''))
      \<and> (case filter_email filters of
         None \<Rightarrow> True
       | Some e \<Rightarrow> e = [] \<or> like (email u) (''%'' @ e @ ''%''))
      \<and> (case minAge filters of
         None \<Rightarrow> True
       | Some m \<Rightarrow> (case age u of None \<Rightarrow> False | Some a \<Rightarrow> a \<ge> m))
      \<and> (case maxAge filters of
         None \<Rightarrow> True
       | Some m \<Rightarrow> (case age u of None \<Rightarrow> False | Some a \<Rightarrow> a \<le> m)))"

text \<open>
  \<open>LIMIT l OFFSET o\<close> in SQLite: a negative limit is no limit, a negative offset is 0.
\<close>

definition limit_offset :: "int \<Rightarrow> int \<Rightarrow> 'a list \<Rightarrow> 'a list" where
  "limit_offset l offset xs =
     (let rest = drop (nat offset) xs in if l < 0 then rest else take (nat l) rest)"

text \<open>
  \<open>UserModel.findAll\<close>: the count, then the page in descending order of \<open>created_at\<close>
  (text compared byte by byte; rows with equal keys in any order, here the later row first).
\<close>

definition findAll ::
  "(string \<Rightarrow> string \<Rightarrow> bool) \<Rightarrow> query_filters \<Rightarrow> database
    \<Rightarrow> (db_error + paginated_response) \<times> database"
where
  "findAll like filters db =
     (if \<not> connected db then (Inl Database_not_connected, db)
      else
        let page = or_default (page filters) 1;
            limit = min (or_default (limit filters) 10) 50;
            offset = (page - 1) * limit;
            db1 = execute SELECT_COUNT db;
            matching = filter (where_clause like filters) (table db1);
            total = int (length matching);
            totalPages = \<lceil>real_of_int total / real_of_int limit\<rceil>;
            db2 = execute SELECT_LIMIT_OFFSET db1;
            rows = limit_offset limit offset (rev (sort_key createdAt matching))
        in (Inr \<lparr>data = rows,
                  pagination = \<lparr>pg_page = page, pg_limit = limit, total = total,
                                 totalPages = totalPages, hasNext = (page < totalPages),
                                 hasPrev = (page > 1)\<rparr>\<rparr>,
            db2))"

text \<open>
  \<open>UserModel.update\<close>: the \<open>UPDATE\<close>, then, when a row changed, \<open>findById\<close> on a new
  \<open>UserModel\<close> over the same connection.
\<close>

definition set_fields :: "string \<Rightarrow> update_user_request \<Rightarrow> user \<Rightarrow> user" where
  "set_fields now userData u =
     u\<lparr>name := (case upd_name userData of None \<Rightarrow> name u | Some n \<Rightarrow> n),
       email := (case upd_email userData of None \<Rightarrow> email u | Some e \<Rightarrow> e),
       age := (case upd_age userData of None \<Rightarrow> age u | Some a \<Rightarrow> Some a),
       updatedAt := now\<rparr>"

definition update ::
  "string \<Rightarrow> int \<Rightarrow> update_user_request \<Rightarrow> database \<Rightarrow> (db_error + user option) \<times> database"
where
  "update now i userData db =
     (if \<not> connected db then (Inl Database_not_connected, db)
      else if upd_name userData = None \<and> upd_email userData = None \<and> upd_age userData = None
        then (Inl No_fields_to_update, db)
      else let db1 = execute UPDATE_users db in
        if find (\<lambda>u. id u = i) (table db1) = None then (Inr None, db1)
        else if (case upd_email userData of
                   None \<Rightarrow> False
                 | Some e \<Rightarrow> e \<in> set (map email (filter (\<lambda>u. id u \<noteq> i) (table db1))))
          then (Inl SQLITE_CONSTRAINT_UNIQUE, db1)
        else findById i
          (db1\<lparr>table := map (\<lambda>u. if id u = i then set_fields now userData u else u) (table db1)\<rparr>))"

text \<open>\<open>UserModel.delete\<close>: whether a row was deleted.\<close>

definition delete :: "int \<Rightarrow> database \<Rightarrow> (db_error + bool) \<times> database" where
  "delete i db =
     (if \<not> connected db then (Inl Database_not_connected, db)
      else let db1 = execute DELETE_FROM_users db in
        (Inr (list_ex (\<lambda>u. id u = i) (table db1)),
         db1\<lparr>table := filter (\<lambda>u. id u \<noteq> i) (table db1)\<rparr>))"

text \<open>
  \<open>UserModel.exists\<close>: the condition on the id is added when \<open>excludeId\<close> is given and
  not 0.
\<close>

definition exists :: "string \<Rightarrow> int option \<Rightarrow> database \<Rightarrow> (db_error + bool) \<times> database" where
  "exists e excludeId db =
     (if \<not> connected db then (Inl Database_not_connected, db)
      else (Inr (list_ex (\<lambda>u. email u = e
                    \<and> (case excludeId of None \<Rightarrow> True | Some x \<Rightarrow> x = 0 \<or> id u \<noteq> x)) (table db)),
            execute SELECT_1_WHERE_email db))"

subsection \<open>The controller\<close>

datatype body = No_data | User_data "user option" | Page_data paginated_response

record api_response =
  status :: nat
  success :: bool
  message :: string
  body :: body

text \<open>
  Each handler gives its response, or the error it passes to \<open>next\<close>, and the database as
  it leaves it.
\<close>

definition controller_create ::
  "string \<Rightarrow> string \<Rightarrow> create_user_request \<Rightarrow> database \<Rightarrow> (db_error + api_response) \<times> database"
where
  "controller_create now current_timestamp userData db =
     (case exists (req_email userData) None db of
        (Inl e, db1) \<Rightarrow> (Inl e, db1)
      | (Inr emailExists, db1) \<Rightarrow>
          if emailExists
            then (Inr \<lparr>status = 409, success = False, message = ''Email already exists'',
                       body = No_data\<rparr>, db1)
          else (case create now current_timestamp userData db1 of
                  (Inl e, db2) \<Rightarrow> (Inl e, db2)
                | (Inr u, db2) \<Rightarrow>
                    (Inr \<lparr>status = 201, success = True, message = ''User created successfully'',
                          body = User_data (Some u)\<rparr>, db2)))"

definition controller_getAll ::
  "(string \<Rightarrow> string \<Rightarrow> bool) \<Rightarrow> query_filters \<Rightarrow> database
    \<Rightarrow> (db_error + api_response) \<times> database"
where
  "controller_getAll like filters db =
     (case findAll like filters db of
        (Inl e, db1) \<Rightarrow> (Inl e, db1)
      | (Inr result, db1) \<Rightarrow>
          (Inr \<lparr>status = 200, success = True, message = ''Users retrieved successfully'',
                body = Page_data result\<rparr>, db1))"

definition controller_getById :: "int \<Rightarrow> database \<Rightarrow> (db_error + api_response) \<times> database" where
  "controller_getById i db =
     (case findById i db of
        (Inl e, db1) \<Rightarrow> (Inl e, db1)
      | (Inr None, db1) \<Rightarrow>
          (Inr \<lparr>status = 404, success = False, message = ''User not found'', body = No_data\<rparr>, db1)
      | (Inr (Some u), db1) \<Rightarrow>
          (Inr \<lparr>status = 200, success = True, message = ''User retrieved successfully'',
                body = User_data (Some u)\<rparr>, db1))"

definition controller_update ::
  "string \<Rightarrow> int \<Rightarrow> update_user_request \<Rightarrow> database \<Rightarrow> (db_error + api_response) \<times> database"
where
  "controller_update now userId userData db =
     (case findById userId db of
        (Inl e, db1) \<Rightarrow> (Inl e, db1)
      | (Inr None, db1) \<Rightarrow>
          (Inr \<lparr>status = 404, success = False, message = ''User not found'', body = No_data\<rparr>, db1)
      | (Inr (Some existingUser), db1) \<Rightarrow>
          (case (case upd_email userData of
                   None \<Rightarrow> (Inr False, db1)
                 | Some e \<Rightarrow> if e = [] then (Inr False, db1) else exists e (Some userId) db1) of
             (Inl e, db2) \<Rightarrow> (Inl e, db2)
           | (Inr emailExists, db2) \<Rightarrow>
               if emailExists
                 then (Inr \<lparr>status = 409, success = False, message = ''Email already exists'',
                            body = No_data\<rparr>, db2)
               else (case update now userId userData db2 of
                       (Inl e, db3) \<Rightarrow> (Inl e, db3)
                     | (Inr updatedUser, db3) \<Rightarrow>
                         (Inr \<lparr>status = 200, success = True,
                               message = ''User updated successfully'',
                               body = User_data updatedUser\<rparr>, db3))))"

definition controller_delete :: "int \<Rightarrow> database \<Rightarrow> (db_error + api_response) \<times> database" where
  "controller_delete userId db =
     (case delete userId db of
        (Inl e, db1) \<Rightarrow> (Inl e, db1)
      | (Inr deleted, db1) \<Rightarrow>
          if \<not> deleted
            then (Inr \<lparr>status = 404, success = False, message = ''User not found'',
                       body = No_data\<rparr>, db1)
          else (Inr \<lparr>status = 200, success = True, message = ''User deleted successfully'',
                     body = No_data\<rparr>, db1))"

text \<open>The statements one handler executed: those added to the log.\<close>

definition round_trips :: "database \<Rightarrow> database \<Rightarrow> nat" where
  "round_trips before after = length (executed after) - length (executed before)"

subsection \<open>The validation of the query of \<open>GET /users\<close>\<close>

text \<open>
  A numeric query parameter as the schema sees it: absent, not convertible to a number,
  or a number.
\<close>

datatype raw_number = Absent | Not_a_number | Number real

record raw_query =
  raw_page :: raw_number
  raw_limit :: raw_number
  raw_name :: "string option"
  raw_email :: "string option"
  raw_minAge :: raw_number
  raw_maxAge :: raw_number

text \<open>
  \<open>Joi.number().integer().min(lo).max(hi).optional().default(d)\<close>, where the bound
  \<open>hi\<close> and the default \<open>d\<close> may be missing: the errors, or the value. Joi also
  refuses a number outside the safe integers.
\<close>

definition joi_integer :: "int \<Rightarrow> int option \<Rightarrow> int option \<Rightarrow> raw_number \<Rightarrow> string list + int option" where
  "joi_integer lo hi d v =
     (case v of
        Absent \<Rightarrow> Inr d
      | Not_a_number \<Rightarrow> Inl [''number.base'']
      | Number r \<Rightarrow>
          if \<bar>r\<bar> > 2 ^ 53 - 1 then Inl [''number.unsafe'']
          else
            let errors = (if of_int \<lfloor>r\<rfloor> \<noteq> r then [''number.integer''] else [])
                  @ (if r < of_int lo then [''number.min''] else [])
                  @ (case hi of None \<Rightarrow> [] | Some h \<Rightarrow> if r > of_int h then [''number.max''] else [])
            in if errors = [] then Inr (Some \<lfloor>r\<rfloor>) else Inl errors)"

text \<open>\<open>Joi.string().optional()\<close>: the empty string is refused.\<close>

definition joi_string :: "string option \<Rightarrow> string list + string option" where
  "joi_string v =
     (case v of
        None \<Rightarrow> Inr None
      | Some s \<Rightarrow> if s = [] then Inl [''string.empty''] else Inr (Some s))"

fun errors_of :: "string list + 'a \<Rightarrow> string list" where
  "errors_of (Inl es) = es"
| "errors_of (Inr v) = []"

fun value_of :: "string list + 'a option \<Rightarrow> 'a option" where
  "value_of (Inl es) = None"
| "value_of (Inr v) = v"

text \<open>
  \<open>validate(querySchema, 'query')\<close> with \<open>abortEarly: false\<close>: all the errors, or the
  query with its defaults.
\<close>

definition validate_query :: "raw_query \<Rightarrow> string list + query_filters" where
  "validate_query q =
     (let p = joi_integer 1 None (Some 1) (raw_page q);
          l = joi_integer 1 (Some 50) (Some 10) (raw_limit q);
          n = joi_string (raw_name q);
          e = joi_string (raw_email q);
          lo = joi_integer 0 None None (raw_minAge q);
          hi = joi_integer 0 None None (raw_maxAge q);
          errors = errors_of p @ errors_of l @ errors_of n @ errors_of e @ errors_of lo @ errors_of hi
      in if errors \<noteq> [] then Inl errors
         else Inr \<lparr>page = value_of p, limit = value_of l, filter_name = value_of n,
                   filter_email = value_of e, minAge = value_of lo, maxAge = value_of hi\<rparr>)"

text \<open>The route \<open>GET /\<close>: the validation middleware, then \<open>UserController.getAll\<close>.\<close>

definition get_users ::
  "(string \<Rightarrow> string \<Rightarrow> bool) \<Rightarrow> raw_query \<Rightarrow> database \<Rightarrow> (db_error + api_response) \<times> database"
where
  "get_users like q db =
     (case validate_query q of
        Inl errors \<Rightarrow>
          (Inr \<lparr>status = 400, success = False, message = ''Validation failed'', body = No_data\<rparr>, db)
      | Inr filters \<Rightarrow> controller_getAll like filters db)"

text \<open>The number of user records in a response.\<close>

fun records_returned :: "db_error + api_response \<Rightarrow> nat" where
  "records_returned (Inl e) = 0"
| "records_returned (Inr r) =
     (case body r of
        No_data \<Rightarrow> 0
      | User_data None \<Rightarrow> 0
      | User_data (Some u) \<Rightarrow> 1
      | Page_data p \<Rightarrow> length (data p))"

section \<open>Problem 6: the action token validator of the security guide\<close>

text \<open>
  The token is the payload built by \<open>generateActionToken\<close> together with its
  signature. \<open>timestamp\<close> is \<open>Date.now()\<close>, milliseconds as an integer.
\<close>

record action_payload =
  action_id :: string
  user_id :: string
  action_type :: string
  score_increment :: int
  timestamp :: int
  nonce :: string

record action_token =
  payload :: action_payload
  signature :: string

text \<open>
  The codes of the \<open>SecurityError\<close>s thrown by \<open>validateActionToken\<close>, and the
  \<open>RangeError\<close> of \<open>crypto.timingSafeEqual\<close> on buffers of different lengths.
\<close>

datatype security_error =
  INVALID_SIGNATURE | TOKEN_EXPIRED | REPLAY_ATTACK | ERR_CRYPTO_TIMING_SAFE_EQUAL_LENGTH

text \<open>
  Redis, as far as the validator uses it: a key holds a string until its expiry time
  (milliseconds). \<open>GET\<close> of a missing or expired key is null; \<open>SETEX\<close> stores a
  string with a time to live in seconds.
\<close>

type_synonym redis = "string \<rightharpoonup> (string \<times> int)"

definition redis_get :: "redis \<Rightarrow> int \<Rightarrow> string \<Rightarrow> string option" where
  "redis_get r now k =
     (case r k of
        None \<Rightarrow> None
      | Some (v, expiry) \<Rightarrow> if now < expiry then Some v else None)"

definition redis_setex :: "redis \<Rightarrow> int \<Rightarrow> string \<Rightarrow> int \<Rightarrow> string \<Rightarrow> redis" where
  "redis_setex r now k seconds v = r(k \<mapsto> (v, now + seconds * 1000))"

text \<open>The test \<open>if (nonceExists)\<close>: null and the empty string are falsy.\<close>

fun truthy :: "string option \<Rightarrow> bool" where
  "truthy None = False"
| "truthy (Some v) = (v \<noteq> [])"

definition nonceKey :: "action_payload \<Rightarrow> string" where
  "nonceKey p = ''nonce:'' @ nonce p"

text \<open>
  Steps 1 to 4 of \<open>validateActionToken\<close>, up to the read of the nonce. The keyed hash
  \<open>createHMAC('sha256', actionSecret).update(JSON.stringify(payload)).digest('hex')\<close>
  is the parameter \<open>hmac\<close>; \<open>now\<close> is \<open>Date.now()\<close>. The two signatures stand
  for the buffers decoded from them, which \<open>crypto.timingSafeEqual\<close> refuses to compare
  when their lengths differ.
\<close>

definition validate_checks ::
  "(action_payload \<Rightarrow> string) \<Rightarrow> redis \<Rightarrow> int \<Rightarrow> action_token \<Rightarrow> security_error + action_payload"
where
  "validate_checks hmac r now token =
     (let expectedSignature = hmac (payload token) in
      if length (signature token) \<noteq> length expectedSignature
        then Inl ERR_CRYPTO_TIMING_SAFE_EQUAL_LENGTH
      else if signature token \<noteq> expectedSignature then Inl INVALID_SIGNATURE
      else let tokenAge = now - timestamp (payload token) in
      if tokenAge > 5 * 60 * 1000 then Inl TOKEN_EXPIRED
      else if truthy (redis_get r now (nonceKey (payload token))) then Inl REPLAY_ATTACK
      else Inr (payload token))"

text \<open>
  The whole function: after the checks, step 5 stores the nonce for 600 seconds. The
  result is what is returned or thrown, with Redis as the call leaves it.
\<close>

definition validateActionToken ::
  "(action_payload \<Rightarrow> string) \<Rightarrow> redis \<Rightarrow> int \<Rightarrow> action_token
    \<Rightarrow> (security_error + action_payload) \<times> redis"
where
  "validateActionToken hmac r now token =
     (case validate_checks hmac r now token of
        Inl e \<Rightarrow> (Inl e, r)
      | Inr p \<Rightarrow> (Inr p, redis_setex r now (nonceKey p) 600 ''1''))"

text \<open>
  \<open>validateActionToken\<close> is asynchronous: another call may run at each \<open>await\<close>, so
  between the read of the nonce and its write. Two calls under the schedule where both
  reads come before both writes: the two results, and Redis after both.
\<close>

definition validateActionToken_interleaved ::
  "(action_payload \<Rightarrow> string) \<Rightarrow> redis \<Rightarrow> int \<Rightarrow> action_token \<Rightarrow> int \<Rightarrow> action_token
    \<Rightarrow> (security_error + action_payload) \<times> (security_error + action_payload) \<times> redis"
where
  "validateActionToken_interleaved hmac r nowA tokenA nowB tokenB =
     (let a = validate_checks hmac r nowA tokenA;
          b = validate_checks hmac r nowB tokenB;
          r1 = (case a of Inl e \<Rightarrow> r | Inr p \<Rightarrow> redis_setex r nowA (nonceKey p) 600 ''1'');
          r2 = (case b of Inl e \<Rightarrow> r1 | Inr p \<Rightarrow> redis_setex r1 nowB (nonceKey p) 600 ''1'')
      in (a, b, r2))"

section \<open>Problem 6: the fraud detection engine of the security guide\<close>

text \<open>
  Risk scores, weights and thresholds are taken as real numbers, the decimal literals
  of the guide as the numbers they write.
\<close>

datatype recommendation = BLOCK | CHALLENGE | MONITOR | ALLOW

fun getRecommendation :: "real \<Rightarrow> recommendation" where
  "getRecommendation riskScore =
     (if riskScore \<ge> 0.8 then BLOCK
      else if riskScore \<ge> 0.6 then CHALLENGE
      else if riskScore \<ge> 0.4 then MONITOR
      else ALLOW)"

text \<open>
  The row read by \<open>analyzeFrequency\<close>: the number of score updates of the last hour and
  their average interval in seconds, null when there is none.
\<close>

record frequency_row =
  count :: int
  avg_interval :: "real option"

text \<open>The test \<open>avg_interval && avg_interval < x\<close>: null and 0 are falsy.\<close>

fun interval_below :: "real option \<Rightarrow> real \<Rightarrow> bool" where
  "interval_below None x = False"
| "interval_below (Some a) x = (a \<noteq> 0 \<and> a < x)"

definition analyzeFrequency :: "frequency_row \<Rightarrow> real" where
  "analyzeFrequency row =
     (if count row > 20 then 0.9
      else if count row > 10 then 0.7
      else if count row > 5 then 0.4
      else if interval_below (avg_interval row) 5 then 0.8
      else if interval_below (avg_interval row) 15 then 0.5
      else 0.1)"

text \<open>A row of \<open>score_history\<close> as \<open>analyzeScorePattern\<close> reads it.\<close>

record history_row =
  row_score_increment :: real
  row_action_type :: string

text \<open>
  \<open>analyzeScorePattern\<close> on \<open>history.rows\<close>. The list is not empty where the average
  and the maximum are taken.
\<close>

definition analyzeScorePattern :: "history_row list \<Rightarrow> real \<Rightarrow> real" where
  "analyzeScorePattern rows scoreIncrement =
     (if length rows = 0 then 0.1
      else
        let increments = map row_score_increment rows;
            avgIncrement = fold (\<lambda>b a. a + b) increments 0 / real (length increments);
            maxIncrement = Max (set increments)
        in if scoreIncrement > maxIncrement * 2 then 0.9
           else if scoreIncrement > avgIncrement * 5 then 0.7
           else if card (set increments) = 1 \<and> length increments > 10 then 0.8
           else 0.1)"

text \<open>
  \<open>analyzeBehavior\<close> reads the hash \<open>behavior:userId\<close> (each field a string; a missing
  key gives the empty hash); the test \<open>!behavior.action_types\<close> holds for a missing
  field and for the empty string. \<open>JSON.parse\<close> is the parameter \<open>parse\<close>: the entries
  of the parsed object (a count per action type), or nothing when it throws.
  \<open>metadata\<close> may be undefined, and reading \<open>metadata.action_type\<close> then throws.
\<close>

datatype behavior_error = SyntaxError | TypeError

record metadata =
  md_action_type :: string

text \<open>
  The quotient \<open>actionFrequency / totalActions\<close> compared with a bound: when the
  total is 0 the quotient is NaN or an infinity, and only \<open>-Infinity\<close> is below.
\<close>

definition probability_below :: "real \<Rightarrow> real \<Rightarrow> real \<Rightarrow> bool" where
  "probability_below actionFrequency totalActions x =
     (if totalActions = 0 then actionFrequency < 0
      else actionFrequency / totalActions < x)"

definition analyzeBehavior ::
  "(string \<Rightarrow> (string \<times> real) list option) \<Rightarrow> (string \<rightharpoonup> string) \<Rightarrow> metadata option
    \<Rightarrow> behavior_error + real"
where
  "analyzeBehavior parse behavior md =
     (case behavior ''action_types'' of
        None \<Rightarrow> Inr 0.2
      | Some raw \<Rightarrow>
          if raw = [] then Inr 0.2
          else case parse raw of
            None \<Rightarrow> Inl SyntaxError
          | Some actionTypes \<Rightarrow>
             (case md of
                None \<Rightarrow> Inl TypeError
              | Some m \<Rightarrow>
                 let currentActionType = md_action_type m;
                     actionFrequency = (case map_of actionTypes currentActionType of
                                          None \<Rightarrow> 0 | Some c \<Rightarrow> c);
                     totalActions = fold (\<lambda>b a. a + b) (map snd actionTypes) 0
                 in if probability_below actionFrequency totalActions 0.05 then Inr 0.6
                    else if probability_below actionFrequency totalActions 0.1 then Inr 0.3
                    else Inr 0.1))"

text \<open>The result of \<open>assessRisk\<close>.\<close>

datatype factor_type = FREQUENCY | PATTERN | BEHAVIOR | DEVICE | TIME

record risk_assessment =
  totalRiskScore :: real
  riskFactors :: "(factor_type \<times> real) list"
  recommendation :: recommendation

text \<open>
  The accumulation of \<open>totalRiskScore\<close> in \<open>assessRisk\<close>, from the five sub-scores,
  and the object returned.
\<close>

definition weighted_total :: "real \<Rightarrow> real \<Rightarrow> real \<Rightarrow> real \<Rightarrow> real \<Rightarrow> real" where
  "weighted_total frequencyRisk patternRisk behaviorRisk deviceRisk timeRisk =
     0 + frequencyRisk * 0.3 + patternRisk * 0.25 + behaviorRisk * 0.2
       + deviceRisk * 0.15 + timeRisk * 0.1"

definition risk_result :: "real \<Rightarrow> real \<Rightarrow> real \<Rightarrow> real \<Rightarrow> real \<Rightarrow> risk_assessment" where
  "risk_result frequencyRisk patternRisk behaviorRisk deviceRisk timeRisk =
     (let total = weighted_total frequencyRisk patternRisk behaviorRisk deviceRisk timeRisk in
      \<lparr>totalRiskScore = min total 1.0,
       riskFactors = [(FREQUENCY, frequencyRisk), (PATTERN, patternRisk),
                      (BEHAVIOR, behaviorRisk), (DEVICE, deviceRisk), (TIME, timeRisk)],
       recommendation = getRecommendation total\<rparr>)"

text \<open>
  What \<open>assessRisk\<close> reads for one user. \<open>analyzeDevice\<close> and \<open>analyzeTimePatterns\<close>
  are called but not given in the guide: their results are inputs here.
\<close>

record user_activity =
  frequency :: frequency_row
  history :: "history_row list"
  behavior :: "string \<rightharpoonup> string"
  deviceRisk :: real
  timeRisk :: real

definition assessRisk ::
  "(string \<Rightarrow> (string \<times> real) list option) \<Rightarrow> user_activity \<Rightarrow> real \<Rightarrow> metadata option
    \<Rightarrow> behavior_error + risk_assessment"
where
  "assessRisk parse u scoreIncrement md =
     (let frequencyRisk = analyzeFrequency (frequency u);
          patternRisk = analyzeScorePattern (history u) scoreIncrement
      in case analyzeBehavior parse (behavior u) md of
           Inl e \<Rightarrow> Inl e
         | Inr behaviorRisk \<Rightarrow>
             Inr (risk_result frequencyRisk patternRisk behaviorRisk (deviceRisk u) (timeRisk u)))"

text \<open>
  A new user: no row of score history in the last hour or at all, and no behaviour hash.
\<close>

definition new_user :: "user_activity \<Rightarrow> bool" where
  "new_user u = (count (frequency u) = 0 \<and> avg_interval (frequency u) = None
     \<and> history u = [] \<and> behavior u ''action_types'' = None)"

section \<open>Problem 6: the score ledger\<close>

text \<open>
  Modelled from the spec: the Score Ledger and its data (User, ScoreHistoryEntry), which
  exist in the repository as prose only. An entry records one applied increment: old
  score, new score, increment, action type and timestamp.
\<close>

record score_history_entry =
  entry_user :: string
  old_score :: int
  new_score :: int
  increment :: int
  entry_action_type :: string
  entry_timestamp :: int

text \<open>
  Modelled from the spec: the authoritative store, which is missing from the repository:
  the current score of every user and the append-only history.
\<close>

record ledger =
  score :: "string \<Rightarrow> int"
  score_history :: "score_history_entry list"

datatype ledger_write = Set_score string int | Append_history score_history_entry

fun apply_write :: "ledger_write \<Rightarrow> ledger \<Rightarrow> ledger" where
  "apply_write (Set_score u v) l = l\<lparr>score := (score l)(u := v)\<rparr>"
| "apply_write (Append_history e) l = l\<lparr>score_history := score_history l @ [e]\<rparr>"

text \<open>
  Modelled from the spec: the atomic unit, which is missing from the repository. The
  writes go to a working copy, one storage step each, and a last step commits the copy.
  \<open>available k\<close> tells whether storage is available at step \<open>k\<close>; when it is not, the
  unit cannot complete and there is no new state.
\<close>

fun atomic_unit :: "(nat \<Rightarrow> bool) \<Rightarrow> nat \<Rightarrow> ledger_write list \<Rightarrow> ledger \<Rightarrow> ledger option" where
  "atomic_unit available k [] working = (if available k then Some working else None)"
| "atomic_unit available k (w # ws) working =
     (if available k then atomic_unit available (Suc k) ws (apply_write w working) else None)"

datatype ledger_error = TransientStorageError

text \<open>
  Modelled from the spec: the application of a validated, risk-cleared increment, which
  is missing from the repository. The score mutation and the history entry are one
  atomic unit; when it cannot complete, the update fails with a retryable error and the
  committed state stays.
\<close>

definition apply_increment ::
  "(nat \<Rightarrow> bool) \<Rightarrow> string \<Rightarrow> int \<Rightarrow> string \<Rightarrow> int \<Rightarrow> ledger
    \<Rightarrow> (ledger_error + score_history_entry) \<times> ledger"
where
  "apply_increment available u inc actionType now committed =
     (let old = score committed u;
          entry = \<lparr>entry_user = u, old_score = old, new_score = old + inc, increment = inc,
                   entry_action_type = actionType, entry_timestamp = now\<rparr>
      in case atomic_unit available 0 [Set_score u (old + inc), Append_history entry] committed of
           None \<Rightarrow> (Inl TransientStorageError, committed)
         | Some l \<Rightarrow> (Inr entry, l))"

text \<open>
  The increments the history holds for a user, and the ledger states in which every
  score is the sum of its entries: no score without its entries, no entry without its
  score.
\<close>

fun applied_total :: "string \<Rightarrow> score_history_entry list \<Rightarrow> int" where
  "applied_total u [] = 0"
| "applied_total u (e # es) = (if entry_user e = u then increment e else 0) + applied_total u es"

definition consistent :: "ledger \<Rightarrow> bool" where
  "consistent l = (\<forall>u. score l u = applied_total u (score_history l))"

section \<open>Inputs for the examples\<close>

definition example_payload :: action_payload where
  "example_payload = \<lparr>action_id = ''a1'', user_id = ''u1'', action_type = ''GAME_COMPLETION'',
     score_increment = 50, timestamp = 0, nonce = ''n1''\<rparr>"

text \<open>A stand-in for the keyed hash: any function of the payload will do here.\<close>

definition example_hmac :: "action_payload \<Rightarrow> string" where
  "example_hmac p = ''5f'' @ nonce p"

definition example_token :: action_token where
  "example_token = \<lparr>payload = example_payload, signature = ''5fn1''\<rparr>"




definition example_ledger :: ledger where
  "example_ledger = \<lparr>score = (\<lambda>u. 0), score_history = []\<rparr>"

definition example_database :: database where
  "example_database = \<lparr>connected = True,
     table = [\<lparr>id = 1, name = ''John Doe'', email = ''john.doe@example.com'', age = Some 30,
               createdAt = ''2024-01-01 00:00:00'', updatedAt = ''2024-01-01 00:00:00''\<rparr>],
     last_id = 1, executed = []\<rparr>"

definition no_filters :: query_filters where
  "no_filters = \<lparr>page = None, limit = None, filter_name = None, filter_email = None,
     minAge = None, maxAge = None\<rparr>"

definition example_like :: "string \<Rightarrow> string \<Rightarrow> bool" where
  "example_like v pattern = True"

section \<open>Problem 1: where the implementations agree\<close>

subsection \<open>Integers that a double holds\<close>

text \<open>The exponent is the one its definition is meant to give.\<close>

lemma exponent_bounds:
  assumes "x \<noteq> 0"
  shows "pow2 (exponent x) \<le> \<bar>x\<bar> \<and> \<bar>x\<bar> < pow2 (exponent x + 1)"
proof (cases "1 \<le> \<bar>x\<bar>")
  case True
  define m where "m = \<lfloor>\<bar>x\<bar>\<rfloor>"
  have m: "0 < m" using True by (simp add: m_def)
  have e: "exponent x = bitlen m - 1"
    using True by (simp add: exponent_def m_def)
  have b: "1 \<le> bitlen m" using m by (simp add: bitlen_alt_def)
  from bitlen_bounds [OF m] have lo: "2 ^ nat (bitlen m - 1) \<le> m" and hi: "m < 2 ^ nat (bitlen m)"
    by simp_all
  have "real_of_int (2 ^ nat (bitlen m - 1)) \<le> real_of_int m"
    using lo by (rule of_int_le_iff [THEN iffD2])
  also have "\<dots> \<le> \<bar>x\<bar>" by (simp add: m_def)
  finally have 1: "pow2 (exponent x) \<le> \<bar>x\<bar>"
    using b by (simp add: e pow2_def)
  have "m + 1 \<le> 2 ^ nat (bitlen m)" using hi by simp
  then have "real_of_int (m + 1) \<le> real_of_int (2 ^ nat (bitlen m))"
    by (rule of_int_le_iff [THEN iffD2])
  moreover have "\<bar>x\<bar> < real_of_int (m + 1)"
    unfolding m_def by linarith
  ultimately have 2: "\<bar>x\<bar> < pow2 (exponent x + 1)"
    using b by (simp add: e pow2_def)
  show ?thesis using 1 2 by simp
next
  case False
  define y where "y = 1 / \<bar>x\<bar>"
  have y1: "1 < y" using False assms by (simp add: y_def)
  define c where "c = \<lceil>y\<rceil> - 1"
  have c: "0 < c" using y1 unfolding c_def by linarith
  have cy: "real_of_int c < y" "y \<le> real_of_int c + 1"
    unfolding c_def by linarith+
  have e: "exponent x = - bitlen c"
    using False by (simp add: exponent_def c_def y_def)
  have b: "1 \<le> bitlen c" using c by (simp add: bitlen_alt_def)
  from bitlen_bounds [OF c] have lo: "2 ^ nat (bitlen c - 1) \<le> c" and hi: "c < 2 ^ nat (bitlen c)"
    by simp_all
  have "real_of_int c + 1 \<le> real_of_int (2 ^ nat (bitlen c))"
    using hi by (metis add.commute of_int_1 of_int_add of_int_le_iff zless_imp_add1_zle)
  then have yhi: "y \<le> 2 ^ nat (bitlen c)"
    using cy by simp
  have "(2::real) ^ nat (bitlen c - 1) \<le> real_of_int c"
    using lo of_int_le_iff [of "2 ^ nat (bitlen c - 1)" c, where ?'a = real] by simp
  then have ylo: "2 ^ nat (bitlen c - 1) < y"
    using cy by linarith
  have xy: "\<bar>x\<bar> = 1 / y" using assms by (simp add: y_def)
  have 1: "pow2 (exponent x) \<le> \<bar>x\<bar>"
  proof -
    have "1 / 2 ^ nat (bitlen c) \<le> 1 / y"
      using yhi y1 by (intro divide_left_mono) simp_all
    then show ?thesis
      using b by (simp add: e pow2_def xy)
  qed
  have 2: "\<bar>x\<bar> < pow2 (exponent x + 1)"
  proof -
    have "1 / y < 1 / 2 ^ nat (bitlen c - 1)"
      using ylo y1 by (intro divide_strict_left_mono) simp_all
    moreover have "pow2 (- bitlen c + 1) = 1 / 2 ^ nat (bitlen c - 1)"
      using b by (auto simp: pow2_def)
    ultimately show ?thesis
      by (simp add: e xy)
  qed
  show ?thesis using 1 2 by simp
qed

lemma round_half_even_of_int [simp]: "round_half_even (of_int k) = k"
  by (simp add: round_half_even_def)













subsection \<open>The loop and the recursions up to \<open>2 ^ 27\<close>\<close>





lemma whole_valid: "0 \<le> k \<Longrightarrow> \<not> (\<not> Number_isInteger (Whole k) \<or> js_lt (Whole k) (Num 0))"
  by simp






subsection \<open>Beyond \<open>2 ^ 27\<close>: rounding\<close>



























section \<open>Problem 5: round trips and page size\<close>

lemma executed_execute [simp]: "executed (execute q db) = executed db @ [q]"
  by (simp add: execute_def)

lemma connected_execute [simp]: "connected (execute q db) = connected db"
  by (simp add: execute_def)

lemma table_execute [simp]: "table (execute q db) = table db"
  by (simp add: execute_def)

lemma findById_executed:
  "connected db \<Longrightarrow> executed (snd (findById i db)) = executed db @ [SELECT_WHERE_id]"
  by (simp add: findById_def)

lemma findById_connected: "connected (snd (findById i db)) = connected db"
  by (simp add: findById_def)

lemma exists_executed:
  "connected db \<Longrightarrow> executed (snd (exists e x db)) = executed db @ [SELECT_1_WHERE_email]"
  by (simp add: exists_def)

lemma findAll_executed:
  "connected db \<Longrightarrow> executed (snd (findAll like f db)) = executed db @ [SELECT_COUNT, SELECT_LIMIT_OFFSET]"
  by (simp add: findAll_def Let_def)

lemma delete_executed:
  "connected db \<Longrightarrow> executed (snd (delete i db)) = executed db @ [DELETE_FROM_users]"
  by (simp add: delete_def Let_def)

lemma create_executed:
  "connected db \<Longrightarrow> executed (snd (create now ct ud db)) = executed db @ [INSERT_INTO_users]"
  by (simp add: create_def Let_def)

lemma getAll_two_round_trips:
  "connected db \<Longrightarrow> round_trips db (snd (controller_getAll like f db)) = 2"
  using findAll_executed [of db like f]
  by (auto simp: controller_getAll_def round_trips_def split: prod.splits sum.splits)

lemma getById_one_round_trip:
  "connected db \<Longrightarrow> round_trips db (snd (controller_getById i db)) = 1"
  using findById_executed [of db i]
  by (auto simp: controller_getById_def round_trips_def split: prod.splits sum.splits option.splits)

lemma delete_one_round_trip:
  "connected db \<Longrightarrow> round_trips db (snd (controller_delete i db)) = 1"
  using delete_executed [of db i]
  by (auto simp: controller_delete_def round_trips_def split: prod.splits sum.splits)

lemma create_round_trips:
  assumes "connected db"
  shows "round_trips db (snd (controller_create now ct ud db))
     = (if req_email ud \<in> set (map email (table db)) then 1 else 2)"
proof -
  have ex: "exists (req_email ud) None db
      = (Inr (req_email ud \<in> set (map email (table db))), execute SELECT_1_WHERE_email db)"
    using assms by (force simp: exists_def list_ex_iff image_iff)
  show ?thesis
  proof (cases "req_email ud \<in> set (map email (table db))")
    case True
    then show ?thesis
      by (simp add: controller_create_def ex round_trips_def)
  next
    case False
    then show ?thesis
      using assms
      by (simp add: controller_create_def ex round_trips_def create_def Let_def split: prod.splits)
  qed
qed

lemma id_set_fields [simp]: "id (set_fields now ud u) = id u"
  by (simp add: set_fields_def)

lemma find_after_update:
  "find (\<lambda>u. id u = i) (map (\<lambda>u. if id u = i then set_fields now ud u else u) xs) = None
     \<longleftrightarrow> find (\<lambda>u. id u = i) xs = None"
  by (induction xs) auto

lemma update_executed:
  assumes "connected db"
  shows "case fst (update now i ud db) of
           Inl Database_not_connected \<Rightarrow> False
         | Inl No_fields_to_update \<Rightarrow> executed (snd (update now i ud db)) = executed db
         | Inl SQLITE_CONSTRAINT_UNIQUE \<Rightarrow>
             executed (snd (update now i ud db)) = executed db @ [UPDATE_users]
         | Inr None \<Rightarrow> executed (snd (update now i ud db)) = executed db @ [UPDATE_users]
             \<and> find (\<lambda>u. id u = i) (table db) = None
         | Inr (Some u) \<Rightarrow>
             executed (snd (update now i ud db)) = executed db @ [UPDATE_users, SELECT_WHERE_id]"
  using assms
  by (auto simp: update_def findById_def Let_def find_after_update
      split: sum.splits db_error.splits option.splits)

lemma update_round_trips_bounds:
  assumes "connected db"
  shows "1 \<le> round_trips db (snd (controller_update now i ud db))
     \<and> round_trips db (snd (controller_update now i ud db)) \<le> 4"
proof (cases "find (\<lambda>u. id u = i) (table db)")
  case None
  then show ?thesis
    using assms by (simp add: controller_update_def findById_def round_trips_def)
next
  case (Some existing)
  define db1 where "db1 = execute SELECT_WHERE_id db"
  have fb: "findById i db = (Inr (Some existing), db1)"
    using assms Some by (simp add: findById_def db1_def)
  have c1: "connected db1" and e1: "executed db1 = executed db @ [SELECT_WHERE_id]"
    using assms by (simp_all add: db1_def)
  obtain r2 db2 where chk: "(case upd_email ud of
                   None \<Rightarrow> (Inr False, db1)
                 | Some e \<Rightarrow> if e = [] then (Inr False, db1) else exists e (Some i) db1) = (r2, db2)"
    by (cases "(case upd_email ud of
                   None \<Rightarrow> (Inr False, db1)
                 | Some e \<Rightarrow> if e = [] then (Inr False, db1) else exists e (Some i) db1)") 
  from chk c1 have c2: "connected db2"
    and e2: "executed db2 = executed db1 \<or> executed db2 = executed db1 @ [SELECT_1_WHERE_email]"
    and r2: "\<exists>b. r2 = Inr b"
    by (auto simp: exists_def split: option.splits if_splits)
  from r2 obtain b where b: "r2 = Inr b" ..
  have len2: "length (executed db2) = length (executed db) + 1
      \<or> length (executed db2) = length (executed db) + 2"
    using e1 e2 by auto
  show ?thesis
  proof (cases b)
    case True
    then show ?thesis
      using len2 by (auto simp: controller_update_def fb chk b round_trips_def)
  next
    case False
    have "length (executed (snd (update now i ud db2))) \<le> length (executed db2) + 2"
      and "length (executed db2) \<le> length (executed (snd (update now i ud db2)))"
      using update_executed [OF c2, of now i ud]
      by (auto split: sum.splits db_error.splits option.splits)
    then show ?thesis
      using len2 False
      by (auto simp: controller_update_def fb chk b round_trips_def split: prod.splits sum.splits)
  qed
qed


lemma table_after_email_check:
  "(case upd_email ud of
      None \<Rightarrow> (Inr False, db1)
    | Some e \<Rightarrow> if e = [] then (Inr False, db1) else exists e (Some i) db1) = (r2, db2)
   \<Longrightarrow> table db2 = table db1"
  by (auto simp: exists_def split: option.splits if_splits)

lemma update_success_round_trips:
  assumes "connected db"
    and ok: "fst (controller_update now i ud db) = Inr r" and st: "status r = 200"
  shows "round_trips db (snd (controller_update now i ud db))
     = (case upd_email ud of None \<Rightarrow> 3 | Some e \<Rightarrow> if e = [] then 3 else 4)"
proof (cases "find (\<lambda>u. id u = i) (table db)")
  case None
  then show ?thesis
    using assms by (auto simp: controller_update_def findById_def)
next
  case (Some existing)
  define db1 where "db1 = execute SELECT_WHERE_id db"
  have fb: "findById i db = (Inr (Some existing), db1)"
    using assms Some by (simp add: findById_def db1_def)
  have c1: "connected db1" and e1: "executed db1 = executed db @ [SELECT_WHERE_id]"
    and t1: "table db1 = table db"
    using assms by (simp_all add: db1_def)
  obtain r2 db2 where chk: "(case upd_email ud of
                   None \<Rightarrow> (Inr False, db1)
                 | Some e \<Rightarrow> if e = [] then (Inr False, db1) else exists e (Some i) db1) = (r2, db2)"
    by (cases "(case upd_email ud of
                   None \<Rightarrow> (Inr False, db1)
                 | Some e \<Rightarrow> if e = [] then (Inr False, db1) else exists e (Some i) db1)")
  from chk c1 have c2: "connected db2"
    and e2: "executed db2 = executed db1 @
        (case upd_email ud of None \<Rightarrow> [] | Some e \<Rightarrow> if e = [] then [] else [SELECT_1_WHERE_email])"
    and r2: "\<exists>b. r2 = Inr b"
    by (auto simp: exists_def split: option.splits if_splits)
  have t2: "table db2 = table db"
    using table_after_email_check [OF chk] t1 by simp
  from r2 obtain b where b: "r2 = Inr b" ..
  show ?thesis
  proof (cases b)
    case True
    then show ?thesis
      using ok st by (auto simp: controller_update_def fb chk b)
  next
    case False
    obtain r3 db3 where upd: "update now i ud db2 = (r3, db3)"
      by (cases "update now i ud db2")
    from ok False obtain v where r3: "r3 = Inr v"
      by (auto simp: controller_update_def fb chk b upd split: sum.splits)
    have "v \<noteq> None"
      using update_executed [OF c2, of now i ud] Some t2 by (cases v) (auto simp: upd r3)
    then obtain u where v: "v = Some u"
      by auto
    have "executed db3 = executed db2 @ [UPDATE_users, SELECT_WHERE_id]"
      using update_executed [OF c2, of now i ud] by (simp add: upd r3 v)
    then show ?thesis
      using False
      by (auto simp: controller_update_def fb chk b upd r3 round_trips_def e1 e2 split: option.splits)
  qed
qed

lemma length_limit_offset: "0 \<le> l \<Longrightarrow> length (limit_offset l offset xs) \<le> nat l"
  by (simp add: limit_offset_def Let_def)

lemma joi_integer_accepts:
  assumes "joi_integer lo hi d v = Inr (Some x)" and "v \<noteq> Absent"
  shows "lo \<le> x \<and> (case hi of None \<Rightarrow> True | Some h \<Rightarrow> x \<le> h)"
proof (cases v)
  case (Number r)
  with assms(1) have int: "of_int \<lfloor>r\<rfloor> = r" and lo: "\<not> r < of_int lo"
    and hi: "case hi of None \<Rightarrow> True | Some h \<Rightarrow> \<not> r > of_int h" and x: "x = \<lfloor>r\<rfloor>"
    by (auto simp: joi_integer_def Let_def split: if_splits option.splits)
  from int lo have "lo \<le> \<lfloor>r\<rfloor>"
    by linarith
  moreover from int hi have "case hi of None \<Rightarrow> True | Some h \<Rightarrow> \<lfloor>r\<rfloor> \<le> h"
    by (cases hi) (simp, simp, linarith)
  ultimately show ?thesis
    by (auto simp: x split: option.splits)
qed (use assms in \<open>simp_all add: joi_integer_def\<close>)

lemma validated_limit:
  assumes "validate_query q = Inr f"
  shows "\<exists>l. limit f = Some l \<and> 1 \<le> l \<and> l \<le> 50"
proof -
  from assms have noerr: "errors_of (joi_integer 1 (Some 50) (Some 10) (raw_limit q)) = []"
    and lim: "limit f = value_of (joi_integer 1 (Some 50) (Some 10) (raw_limit q))"
    by (auto simp: validate_query_def Let_def split: if_splits)
  from noerr obtain v where v: "joi_integer 1 (Some 50) (Some 10) (raw_limit q) = Inr v"
    by (cases "joi_integer 1 (Some 50) (Some 10) (raw_limit q)") (auto simp: joi_integer_def split: raw_number.splits if_splits)
  show ?thesis
  proof (cases "raw_limit q = Absent")
    case True
    then show ?thesis
      using lim by (simp add: joi_integer_def)
  next
    case False
    from v False obtain x where x: "v = Some x"
      by (cases "raw_limit q") (auto simp: joi_integer_def Let_def split: if_splits)
    from joi_integer_accepts [OF v [unfolded x] False] show ?thesis
      using lim v x by simp
  qed
qed

lemma limit_above_50_rejected:
  assumes "raw_limit q = Number r" and "r > 50"
  shows "isl (validate_query q)"
proof -
  have "errors_of (joi_integer 1 (Some 50) (Some 10) (raw_limit q)) \<noteq> []"
    using assms by (simp add: joi_integer_def Let_def)
  then show ?thesis
    by (simp add: validate_query_def Let_def)
qed

lemma findAll_page_size:
  assumes "findAll like f db = (Inr res, db')"
  shows "pg_limit (pagination res) = min (or_default (limit f) 10) 50"
    and "0 \<le> or_default (limit f) 10 \<Longrightarrow> length (data res) \<le> nat (min (or_default (limit f) 10) 50)"
  using assms
  by (auto simp: findAll_def Let_def length_limit_offset split: if_splits)

text \<open>
  C10: a response to \<open>GET /users\<close> holds at most 50 user records; the schema refuses a
  limit above 50; and \<open>findAll\<close>, given a limit of at least 1, pages by the minimum of
  that limit and 50.
\<close>

theorem page_size_at_most_50:
  "records_returned (fst (get_users like q db)) \<le> 50
   \<and> (raw_limit q = Number r \<and> r > 50 \<longrightarrow> isl (validate_query q))
   \<and> (findAll like f db = (Inr res, db') \<and> limit f = Some l \<and> 1 \<le> l
        \<longrightarrow> pg_limit (pagination res) = min l 50 \<and> int (length (data res)) \<le> min l 50)"
proof (intro conjI impI)
  show "records_returned (fst (get_users like q db)) \<le> 50"
  proof (cases "validate_query q")
    case (Inl errors)
    then show ?thesis
      by (simp add: get_users_def)
  next
    case (Inr filters)
    then obtain k where k: "limit filters = Some k" "1 \<le> k" "k \<le> 50"
      using validated_limit by blast
    show ?thesis
    proof (cases "findAll like filters db")
      case (Pair result db1)
      show ?thesis
      proof (cases result)
        case (Inl e)
        then show ?thesis
          by (simp add: get_users_def Inr controller_getAll_def Pair)
      next
        case page: (Inr p)
        have "length (data p) \<le> nat (min (or_default (limit filters) 10) 50)"
          using findAll_page_size(2) [OF Pair [unfolded page]] k by simp
        then show ?thesis
          using k by (simp add: get_users_def Inr controller_getAll_def Pair page)
      qed
    qed
  qed
next
  assume "raw_limit q = Number r \<and> r > 50"
  then show "isl (validate_query q)"
    by (simp add: limit_above_50_rejected)
next
  assume a: "findAll like f db = (Inr res, db') \<and> limit f = Some l \<and> 1 \<le> l"
  then show "pg_limit (pagination res) = min l 50"
    using findAll_page_size(1) [of like f db res db'] by simp
  from a show "int (length (data res)) \<le> min l 50"
    using findAll_page_size(2) [of like f db res db'] by (auto simp: min_def split: if_splits)
qed

text \<open>
  C9, as amended: with the database connected, \<open>getById\<close> and \<open>delete\<close> execute exactly
  one statement per request; \<open>getAll\<close> always executes two (the count, then the page);
  \<open>create\<close> executes two when it inserts and one when the e-mail is taken; \<open>update\<close>
  executes between one and four, and three or four when it answers 200 (four when a
  non-empty e-mail is given).
\<close>

theorem crud_round_trips:
  assumes "connected db"
  shows "round_trips db (snd (controller_getById i db)) = 1
     \<and> round_trips db (snd (controller_delete i db)) = 1
     \<and> round_trips db (snd (controller_getAll like f db)) = 2
     \<and> round_trips db (snd (controller_create now ct cu db))
         = (if req_email cu \<in> set (map email (table db)) then 1 else 2)
     \<and> 1 \<le> round_trips db (snd (controller_update now i uu db))
     \<and> round_trips db (snd (controller_update now i uu db)) \<le> 4
     \<and> (case fst (controller_update now i uu db) of
          Inl e \<Rightarrow> True
        | Inr r \<Rightarrow> if status r = 200
            then round_trips db (snd (controller_update now i uu db))
               = (case upd_email uu of None \<Rightarrow> 3 | Some e \<Rightarrow> if e = [] then 3 else 4)
            else True)"
proof -
  have "case fst (controller_update now i uu db) of
          Inl e \<Rightarrow> True
        | Inr r \<Rightarrow> if status r = 200
            then round_trips db (snd (controller_update now i uu db))
               = (case upd_email uu of None \<Rightarrow> 3 | Some e \<Rightarrow> if e = [] then 3 else 4)
            else True"
    using update_success_round_trips [OF assms, of now i uu]
    by (cases "fst (controller_update now i uu db)") simp_all
  then show ?thesis
    using assms update_round_trips_bounds [OF assms, of now i uu]
    by (simp add: getById_one_round_trip delete_one_round_trip getAll_two_round_trips
        create_round_trips)
qed

theorem crud_round_trips_witness:
  "connected example_database
   \<and> round_trips example_database (snd (controller_getById 1 example_database)) = 1
   \<and> round_trips example_database (snd (controller_delete 1 example_database)) = 1
   \<and> round_trips example_database (snd (controller_getAll example_like no_filters example_database)) = 2
   \<and> round_trips example_database
        (snd (controller_create ''t'' ''t''
           \<lparr>req_name = ''Jane Smith'', req_email = ''jane.smith@example.com'', req_age = Some 25\<rparr>
           example_database)) = 2"
proof -
  have c: "connected example_database"
    by (simp add: example_database_def)
  from crud_round_trips [OF c, of 1 example_like no_filters "''t''" "''t''"
      "\<lparr>req_name = ''Jane Smith'', req_email = ''jane.smith@example.com'', req_age = Some 25\<rparr>"]
  show ?thesis
    using c by (simp add: example_database_def)
qed

text \<open>
  C9 as stated fails: on a table of one user, \<open>getAll\<close> executes two statements,
  \<open>create\<close> two and \<open>update\<close> four.
\<close>

theorem several_round_trips_counterexample:
  "executed (snd (controller_getAll example_like no_filters example_database))
     = [SELECT_COUNT, SELECT_LIMIT_OFFSET]
   \<and> round_trips example_database
        (snd (controller_getAll example_like no_filters example_database)) \<noteq> 1
   \<and> executed (snd (controller_create ''t'' ''t''
        \<lparr>req_name = ''Jane Smith'', req_email = ''jane.smith@example.com'', req_age = Some 25\<rparr>
        example_database))
     = [SELECT_1_WHERE_email, INSERT_INTO_users]
   \<and> executed (snd (controller_update ''t'' 1
        \<lparr>upd_name = None, upd_email = Some ''john@example.com'', upd_age = None\<rparr>
        example_database))
     = [SELECT_WHERE_id, SELECT_1_WHERE_email, UPDATE_users, SELECT_WHERE_id]"
  by (simp add: controller_getAll_def findAll_def controller_create_def exists_def create_def
      controller_update_def findById_def update_def round_trips_def execute_def
      example_database_def no_filters_def Let_def)

theorem page_size_at_most_50_witness:
  "records_returned (fst (get_users example_like
       \<lparr>raw_page = Absent, raw_limit = Number 51, raw_name = None, raw_email = None,
        raw_minAge = Absent, raw_maxAge = Absent\<rparr> example_database)) \<le> 50
   \<and> isl (validate_query
       \<lparr>raw_page = Absent, raw_limit = Number 51, raw_name = None, raw_email = None,
        raw_minAge = Absent, raw_maxAge = Absent\<rparr>)
   \<and> pg_limit (pagination (projr (fst (findAll example_like (no_filters\<lparr>limit := Some 70\<rparr>)
        example_database)))) = 50"
proof -
  have fa: "findAll example_like (no_filters\<lparr>limit := Some 70\<rparr>) example_database
      = (Inr (projr (fst (findAll example_like (no_filters\<lparr>limit := Some 70\<rparr>) example_database))),
         snd (findAll example_like (no_filters\<lparr>limit := Some 70\<rparr>) example_database))"
    by (simp add: findAll_def example_database_def Let_def)
  have lim: "limit (no_filters\<lparr>limit := Some 70\<rparr>) = Some 70 \<and> (1::int) \<le> 70"
    by simp
  show ?thesis
    using page_size_at_most_50 [where like = example_like and db = example_database
        and f = "no_filters\<lparr>limit := Some 70\<rparr>" and l = 70 and r = 51
        and res = "projr (fst (findAll example_like (no_filters\<lparr>limit := Some 70\<rparr>) example_database))"
        and db' = "snd (findAll example_like (no_filters\<lparr>limit := Some 70\<rparr>) example_database)"
        and q = "\<lparr>raw_page = Absent, raw_limit = Number 51, raw_name = None, raw_email = None,
          raw_minAge = Absent, raw_maxAge = Absent\<rparr>"] fa lim
    by simp
qed

section \<open>Problem 6: expiry and replay of action tokens\<close>


text \<open>
  C3: for a token whose signature verifies and whose nonce is fresh, the validator
  rejects with \<open>TOKEN_EXPIRED\<close> if and only if the age (validation time minus issue
  timestamp) exceeds 5 minutes; at an age of at most 5 minutes, the boundary included,
  the token is accepted.
\<close>

theorem expiry_window_strict:
  assumes "signature token = hmac (payload token)"
    and "\<not> truthy (redis_get r now (nonceKey (payload token)))"
  shows "(fst (validateActionToken hmac r now token) = Inl TOKEN_EXPIRED)
          = (now - timestamp (payload token) > 5 * 60 * 1000)
     \<and> (if now - timestamp (payload token) \<le> 5 * 60 * 1000
        then fst (validateActionToken hmac r now token) = Inr (payload token)
        else fst (validateActionToken hmac r now token) = Inl TOKEN_EXPIRED)"
  using assms by (simp add: validateActionToken_def validate_checks_def Let_def)

theorem expiry_window_strict_witness:
  "fst (validateActionToken example_hmac Map.empty 300000 example_token) = Inr example_payload
   \<and> fst (validateActionToken example_hmac Map.empty 300001 example_token) = Inl TOKEN_EXPIRED"
  using expiry_window_strict [of example_token example_hmac Map.empty 300000]
    expiry_window_strict [of example_token example_hmac Map.empty 300001]
  by (simp add: example_token_def example_payload_def example_hmac_def redis_get_def nonceKey_def)

text \<open>A token whose nonce Redis still holds is never accepted, and Redis stays as it is.\<close>

lemma recorded_nonce_never_accepted:
  assumes "truthy (redis_get r now (nonceKey (payload token)))"
  shows "isl (fst (validateActionToken hmac r now token))"
    and "snd (validateActionToken hmac r now token) = r"
  using assms by (simp_all add: validateActionToken_def validate_checks_def Let_def)




text \<open>
  Two concurrent calls on the same token, both reading the nonce before either writes
  it, are both accepted.
\<close>

lemma validateActionToken_race:
  "validateActionToken_interleaved example_hmac Map.empty 1000 example_token 1001 example_token
     = (Inr example_payload, Inr example_payload,
        [nonceKey example_payload \<mapsto> (''1'', 601001)])"
  by (simp add: validateActionToken_interleaved_def validate_checks_def example_token_def
      example_payload_def example_hmac_def redis_get_def redis_setex_def nonceKey_def Let_def)

section \<open>Problem 6: risk score and recommendation\<close>

text \<open>
  C4: the recommendation is \<open>BLOCK\<close> exactly from 0.8, \<open>CHALLENGE\<close> exactly from 0.6 to
  below 0.8, \<open>MONITOR\<close> exactly from 0.4 to below 0.6, and \<open>ALLOW\<close> exactly below 0.4.
\<close>

theorem recommendation_thresholds:
  "(getRecommendation r = BLOCK) = (r \<ge> 0.8)
   \<and> (getRecommendation r = CHALLENGE) = (0.6 \<le> r \<and> r < 0.8)
   \<and> (getRecommendation r = MONITOR) = (0.4 \<le> r \<and> r < 0.6)
   \<and> (getRecommendation r = ALLOW) = (r < 0.4)"
  by auto

theorem recommendation_thresholds_witness:
  "getRecommendation 0.8 = BLOCK \<and> getRecommendation 0.79 = CHALLENGE
   \<and> getRecommendation 0.6 = CHALLENGE \<and> getRecommendation 0.4 = MONITOR
   \<and> getRecommendation 0.39 = ALLOW \<and> getRecommendation 1 = BLOCK \<and> getRecommendation 0 = ALLOW"
  using recommendation_thresholds [of "0.8"] recommendation_thresholds [of "0.79"]
    recommendation_thresholds [of "0.6"] recommendation_thresholds [of "0.4"]
    recommendation_thresholds [of "0.39"] recommendation_thresholds [of "1"]
    recommendation_thresholds [of "0"]
  by simp

lemma recommendation_of_returned_score:
  "recommendation (risk_result f p b d t) = getRecommendation (totalRiskScore (risk_result f p b d t))"
  by (simp add: risk_result_def Let_def min_def)

lemma weighted_total_bounds:
  assumes "0 \<le> f" "f \<le> 1" "0 \<le> p" "p \<le> 1" "0 \<le> b" "b \<le> 1" "0 \<le> d" "d \<le> 1" "0 \<le> t" "t \<le> 1"
  shows "0 \<le> weighted_total f p b d t" and "weighted_total f p b d t \<le> 1"
  using assms by (simp_all add: weighted_total_def)

text \<open>
  C5: when the five sub-scores lie between 0 and 1, so does the total risk score; the
  weights are 0.3, 0.25, 0.2, 0.15 and 0.1, and they sum to 1.
\<close>

theorem total_risk_bounded:
  assumes "0 \<le> f \<and> f \<le> 1" "0 \<le> p \<and> p \<le> 1" "0 \<le> b \<and> b \<le> 1" "0 \<le> d \<and> d \<le> 1" "0 \<le> t \<and> t \<le> 1"
  shows "0 \<le> totalRiskScore (risk_result f p b d t) \<and> totalRiskScore (risk_result f p b d t) \<le> 1
     \<and> weighted_total f p b d t = f * 0.3 + p * 0.25 + b * 0.2 + d * 0.15 + t * 0.1
     \<and> weighted_total 1 1 1 1 1 = 1
     \<and> (0.3 + 0.25 + 0.2 + 0.15 + 0.1 :: real) = 1.0"
proof -
  have "0 \<le> weighted_total f p b d t"
    using assms by (simp add: weighted_total_bounds)
  then show ?thesis
    by (simp add: risk_result_def Let_def) (simp add: weighted_total_def)
qed

theorem total_risk_bounded_witness:
  "totalRiskScore (risk_result 0.9 0.9 0.6 1 1) = 0.865
   \<and> 0 \<le> totalRiskScore (risk_result 0.9 0.9 0.6 1 1)
   \<and> totalRiskScore (risk_result 0.9 0.9 0.6 1 1) \<le> 1"
  using total_risk_bounded [of "0.9" "0.9" "0.6" 1 1]
  by (simp add: risk_result_def weighted_total_def Let_def)

lemma analyzeFrequency_range: "0.1 \<le> analyzeFrequency row \<and> analyzeFrequency row \<le> 0.9"
  by (simp add: analyzeFrequency_def)

lemma analyzeScorePattern_range:
  "0.1 \<le> analyzeScorePattern rows inc \<and> analyzeScorePattern rows inc \<le> 0.9"
  by (simp add: analyzeScorePattern_def Let_def)

lemma analyzeBehavior_range:
  "analyzeBehavior parse bh md = Inr v \<Longrightarrow> 0.1 \<le> v \<and> v \<le> 0.6"
  by (auto simp: analyzeBehavior_def Let_def split: option.splits if_splits)

lemma assessRisk_bounded:
  assumes "assessRisk parse u inc md = Inr a"
    and "0 \<le> deviceRisk u" "deviceRisk u \<le> 1" "0 \<le> timeRisk u" "timeRisk u \<le> 1"
  shows "0 \<le> totalRiskScore a \<and> totalRiskScore a \<le> 1"
proof -
  from assms(1) obtain v where v: "analyzeBehavior parse (behavior u) md = Inr v"
    and a: "a = risk_result (analyzeFrequency (frequency u))
        (analyzeScorePattern (history u) inc) v (deviceRisk u) (timeRisk u)"
    by (auto simp: assessRisk_def Let_def split: sum.splits)
  have "0 \<le> weighted_total (analyzeFrequency (frequency u))
        (analyzeScorePattern (history u) inc) v (deviceRisk u) (timeRisk u)"
    using analyzeFrequency_range [of "frequency u"] analyzeScorePattern_range [of "history u" inc]
      analyzeBehavior_range [OF v] assms(2-)
    by (intro weighted_total_bounds) simp_all
  then show ?thesis
    by (simp add: a risk_result_def Let_def)
qed




text \<open>
  With the two sub-scores that are not in the guide between 0 and 1, a user without
  history is always allowed.
\<close>

lemma new_user_allowed:
  assumes "new_user u" "0 \<le> deviceRisk u" "deviceRisk u \<le> 1" "0 \<le> timeRisk u" "timeRisk u \<le> 1"
  shows "\<exists>a. assessRisk parse u scoreIncrement md = Inr a \<and> recommendation a = ALLOW
     \<and> 0.095 \<le> totalRiskScore a \<and> totalRiskScore a \<le> 0.345"
proof -
  have "assessRisk parse u scoreIncrement md = Inr (risk_result 0.1 0.1 0.2 (deviceRisk u) (timeRisk u))"
    using assms(1)
    by (simp add: new_user_def analyzeFrequency_def analyzeScorePattern_def analyzeBehavior_def
        assessRisk_def)
  moreover have "0.095 \<le> weighted_total 0.1 0.1 0.2 (deviceRisk u) (timeRisk u)"
    and "weighted_total 0.1 0.1 0.2 (deviceRisk u) (timeRisk u) \<le> 0.345"
    using assms(2-) by (simp_all add: weighted_total_def)
  ultimately show ?thesis
    by (simp add: risk_result_def Let_def)
qed

section \<open>Problem 6: atomic score updates\<close>

lemma atomic_unit_two_writes:
  "atomic_unit available 0 [w1, w2] l
     = (if available 0 \<and> available 1 \<and> available 2 then Some (apply_write w2 (apply_write w1 l)) else None)"
  by (simp add: numeral_2_eq_2)

lemma applied_total_append:
  "applied_total u (es @ [e]) = applied_total u es + (if entry_user e = u then increment e else 0)"
  by (induction es) simp_all

text \<open>
  C2: an application attempt either commits the score mutation together with exactly
  one history entry for it, or fails with the retryable error and leaves the ledger as
  it was; and a ledger in which every score is the sum of its history entries stays so.
\<close>

theorem ledger_update_all_or_nothing:
  "(case apply_increment available u inc actionType now l of
      (Inl err, l') \<Rightarrow> err = TransientStorageError \<and> l' = l
    | (Inr e, l') \<Rightarrow>
        score l' u = score l u + inc
        \<and> score_history l' = score_history l @ [e]
        \<and> entry_user e = u \<and> old_score e = score l u \<and> new_score e = score l u + inc
        \<and> increment e = inc
        \<and> (\<forall>v. v \<noteq> u \<longrightarrow> score l' v = score l v))
   \<and> (consistent l \<longrightarrow> consistent (snd (apply_increment available u inc actionType now l)))"
proof -
  have step: "consistent l \<Longrightarrow> consistent (snd (apply_increment available u inc actionType now l))"
    by (simp add: apply_increment_def atomic_unit_two_writes consistent_def applied_total_append
        Let_def)
  show ?thesis
    using step
    by (simp add: apply_increment_def atomic_unit_two_writes Let_def del: atomic_unit.simps)
qed

theorem ledger_update_all_or_nothing_witness:
  "consistent example_ledger
   \<and> fst (apply_increment (\<lambda>k. True) ''u1'' 50 ''GAME_COMPLETION'' 7 example_ledger)
      = Inr \<lparr>entry_user = ''u1'', old_score = 0, new_score = 50, increment = 50,
             entry_action_type = ''GAME_COMPLETION'', entry_timestamp = 7\<rparr>
   \<and> score (snd (apply_increment (\<lambda>k. True) ''u1'' 50 ''GAME_COMPLETION'' 7 example_ledger)) ''u1'' = 50
   \<and> consistent (snd (apply_increment (\<lambda>k. True) ''u1'' 50 ''GAME_COMPLETION'' 7 example_ledger))
   \<and> apply_increment (\<lambda>k. k \<noteq> 1) ''u1'' 50 ''GAME_COMPLETION'' 7 example_ledger
      = (Inl TransientStorageError, example_ledger)"
proof -
  have c: "consistent example_ledger"
    by (simp add: consistent_def example_ledger_def)
  have ok: "fst (apply_increment (\<lambda>k. True) ''u1'' 50 ''GAME_COMPLETION'' 7 example_ledger)
      = Inr \<lparr>entry_user = ''u1'', old_score = 0, new_score = 50, increment = 50,
             entry_action_type = ''GAME_COMPLETION'', entry_timestamp = 7\<rparr>"
    by (simp add: apply_increment_def example_ledger_def Let_def)
  have failed: "fst (apply_increment (\<lambda>k. k \<noteq> 1) ''u1'' 50 ''GAME_COMPLETION'' 7 example_ledger)
      = Inl TransientStorageError"
    by (simp add: apply_increment_def example_ledger_def Let_def)
  show ?thesis
    using c ok failed
      ledger_update_all_or_nothing [where available = "\<lambda>k. True" and u = "''u1''" and inc = 50
        and actionType = "''GAME_COMPLETION''" and now = 7 and l = example_ledger]
      ledger_update_all_or_nothing [where available = "\<lambda>k. k \<noteq> 1" and u = "''u1''" and inc = 50
        and actionType = "''GAME_COMPLETION''" and now = 7 and l = example_ledger]
    by (auto simp: example_ledger_def split: prod.splits sum.splits)
qed


end
